theory Spec2Isabelle
  imports Main "HOL-Library.AList"
begin

section \<open>Synthetic telemetry records: the generator of \<open>hmmr/generate_data.py\<close>\<close>

text \<open>
  The generator samples nine vital-sign fields, measures the JSON text of the
  resulting dictionary and shortens randomly chosen fields until the text fits a
  byte budget. The development below embeds the functions of the module one by
  one and then settles the properties stated about them.

  Python values are represented as follows.
  \<^item> A \<open>str\<close> is a sequence of code points. Every code point that occurs in this
    program is below 256 (ASCII and the degree sign U+00B0), so a \<open>str\<close> is a
    \<open>string\<close> holding one code point per character; \<open>length\<close> is Python's
    \<open>len\<close>.
  \<^item> An \<open>int\<close> is unbounded: \<open>int\<close>.
  \<^item> A \<open>dict\<close> keeps its keys in insertion order: an association list. Lookup
    \<open>data[key]\<close> is \<open>map_of\<close>, the assignment \<open>data[key] = v\<close> is \<open>AList.update\<close>
    (it replaces the value in place, or appends a new key).
  \<^item> The module-level random generator and the wall clock are inputs: each call
    of \<open>random.randint\<close>, \<open>random.choice\<close> or \<open>random.uniform\<close> receives the raw
    number the generator hands out at that call, and \<open>datetime.now()\<close> is the
    clock reading in microseconds. A second set of functions threads the state
    of the seeded generator through the same calls.
\<close>

subsection \<open>Values, dictionaries and outcomes\<close>

datatype field_value = StrV string | IntV int

type_synonym field_map = "(string \<times> field_value) list"

text \<open>
  \<open>IndexError\<close> (\<open>random.choice\<close> on an empty sequence) and \<open>KeyError\<close>
  (\<open>data[key]\<close> on a missing key) are the exceptions the statements of the loop
  can raise. \<open>SizeConstraintUnsatisfiable\<close> is the condition named by the
  specification; no statement of the module raises it.
\<close>

datatype py_error = IndexError | KeyError | SizeConstraintUnsatisfiable

text \<open>
  A run either returns a value, raises, or is still inside the \<open>while\<close> loop when
  the supplied random draws are used up (\<open>Unfinished\<close>).
\<close>

datatype 'a outcome = Returned 'a | Raised py_error | Unfinished

subsection \<open>Text of integers: \<open>str(n)\<close> and \<open>f"{i:05d}"\<close>\<close>

definition digit_char :: "nat \<Rightarrow> char" where
  "digit_char d = ''0123456789'' ! d"

fun digits :: "nat \<Rightarrow> string" where
  "digits n = (if n < 10 then [digit_char n] else digits (n div 10) @ [digit_char (n mod 10)])"

declare digits.simps [simp del]

definition str_int :: "int \<Rightarrow> string" where
  "str_int i = (if i < 0 then CHR ''-'' # digits (nat (- i)) else digits (nat i))"

text \<open>
  The format specification \<open>05d\<close>: minimum width 5, zero fill placed after the
  sign, so \<open>-1\<close> is rendered \<open>-0001\<close> and a number of six digits is not cut.
\<close>

definition zero_fill :: "nat \<Rightarrow> string \<Rightarrow> string" where
  "zero_fill w s = replicate (w - length s) (CHR ''0'') @ s"

definition format_05d :: "int \<Rightarrow> string" where
  "format_05d i =
     (if i < 0 then CHR ''-'' # zero_fill 4 (digits (nat (- i)))
      else zero_fill 5 (digits (nat i)))"

definition generate_patient_id :: "int \<Rightarrow> string" where
  "generate_patient_id i = CHR ''P'' # format_05d i"

subsection \<open>Random draws\<close>

text \<open>
  \<open>random.randint(a, b)\<close> returns some integer of the closed range; \<open>r\<close> is the
  raw number of the generator, reduced into the range. \<open>random.choice(seq)\<close>
  raises \<open>IndexError\<close> on an empty sequence and otherwise returns the element at
  some index below \<open>len(seq)\<close>.
\<close>

definition randint :: "int \<Rightarrow> int \<Rightarrow> nat \<Rightarrow> int" where
  "randint a b r = a + int (r mod nat (b - a + 1))"

definition random_choice :: "'a list \<Rightarrow> nat \<Rightarrow> py_error + 'a" where
  "random_choice seq r = (if seq = [] then Inl IndexError else Inr (seq ! (r mod length seq)))"

definition generate_device_id :: "nat \<Rightarrow> string" where
  "generate_device_id r = CHR ''D'' # str_int (randint 10000 99999 r)"

subsection \<open>\<open>random_timestamp\<close>\<close>

text \<open>
  \<open>timedelta(days, hours, minutes, seconds)\<close> in seconds. The clock reading
  \<open>now\<close> is in microseconds; \<open>strftime("%Y-%m-%dT%H:%M:%S")\<close> prints the instant
  \<open>now - delta\<close> without its microseconds, and the model keeps the second that
  the printed text denotes.
\<close>

record timestamp_draws =
  days_draw :: nat
  hours_draw :: nat
  minutes_draw :: nat
  seconds_draw :: nat

definition timedelta_seconds :: "int \<Rightarrow> int \<Rightarrow> int \<Rightarrow> int \<Rightarrow> int" where
  "timedelta_seconds d h m s = ((d * 24 + h) * 60 + m) * 60 + s"

definition random_timestamp :: "int \<Rightarrow> timestamp_draws \<Rightarrow> int" where
  "random_timestamp now r =
     (let delta = timedelta_seconds
            (randint 0 30 (days_draw r))
            (randint 0 23 (hours_draw r))
            (randint 0 59 (minutes_draw r))
            (randint 0 59 (seconds_draw r));
          ts = now - delta * 1000000
      in ts div 1000000)"

subsection \<open>\<open>calculate_data_size\<close>: \<open>json.dumps\<close> and its UTF-8 length\<close>

text \<open>
  \<open>json.dumps\<close> is called with its defaults: \<open>ensure_ascii=True\<close> and the
  separators \<open>", "\<close> and \<open>": "\<close>. With \<open>ensure_ascii\<close> every character outside
  the printable ASCII range \<open>' '..'~'\<close> is escaped, the quote and the backslash
  too; the short escapes are those of \<open>\\b \\t \\n \\f \\r\<close>, every other one is
  \<open>\\uXXXX\<close> with lower-case hexadecimal digits.
\<close>

definition hex_char :: "nat \<Rightarrow> char" where
  "hex_char d = ''0123456789abcdef'' ! d"

definition escape_char :: "char \<Rightarrow> string" where
  "escape_char c =
     (let n = (of_char c :: nat) in
      if n = 0x22 then [CHR 0x5C, CHR 0x22]
      else if n = 0x5C then [CHR 0x5C, CHR 0x5C]
      else if n = 0x08 then [CHR 0x5C, CHR ''b'']
      else if n = 0x09 then [CHR 0x5C, CHR ''t'']
      else if n = 0x0A then [CHR 0x5C, CHR ''n'']
      else if n = 0x0C then [CHR 0x5C, CHR ''f'']
      else if n = 0x0D then [CHR 0x5C, CHR ''r'']
      else if n < 0x20 \<or> 0x7E < n then
        [CHR 0x5C, CHR ''u'', CHR ''0'', CHR ''0'', hex_char (n div 16), hex_char (n mod 16)]
      else [c])"

definition encode_basestring_ascii :: "string \<Rightarrow> string" where
  "encode_basestring_ascii s = [CHR 0x22] @ concat (map escape_char s) @ [CHR 0x22]"

fun encode_value :: "field_value \<Rightarrow> string" where
  "encode_value (StrV s) = encode_basestring_ascii s"
| "encode_value (IntV n) = str_int n"

fun join :: "string \<Rightarrow> string list \<Rightarrow> string" where
  "join sep [] = []"
| "join sep [x] = x"
| "join sep (x # y # ys) = x @ sep @ join sep (y # ys)"

definition encode_item :: "string \<times> field_value \<Rightarrow> string" where
  "encode_item kv = encode_basestring_ascii (fst kv) @ '': '' @ encode_value (snd kv)"

definition json_dumps :: "field_map \<Rightarrow> string" where
  "json_dumps d = ''{'' @ join '', '' (map encode_item d) @ ''}''"

text \<open>\<open>s.encode('utf-8')\<close> on code points below 256: one byte below 128, two above.\<close>

definition utf8_char :: "char \<Rightarrow> nat list" where
  "utf8_char c =
     (let n = (of_char c :: nat) in
      if n < 128 then [n] else [192 + n div 64, 128 + n mod 64])"

definition utf8_encode :: "string \<Rightarrow> nat list" where
  "utf8_encode s = concat (map utf8_char s)"

definition calculate_data_size :: "field_map \<Rightarrow> int" where
  "calculate_data_size record_data = int (length (utf8_encode (json_dumps record_data)))"

subsection \<open>The field sampler of \<open>generate_data\<close>\<close>

text \<open>
  One raw draw per call of the random module, in the order of the source.
  \<open>round(random.uniform(36.5, 37.5), 1)\<close> is one of the eleven values
  36.5, 36.6, ..., 37.5; the draw selects it, counted in tenths of a degree, and
  the f-string prints it with one decimal.
\<close>

record sample_draws =
  heart_rate_draw :: nat
  systolic_draw :: nat
  diastolic_draw :: nat
  oxygen_saturation_draw :: nat
  respiratory_rate_draw :: nat
  steps_draw :: nat
  activity_level_draw :: nat
  sleep_duration_draw :: nat
  glucose_level_draw :: nat
  temperature_draw :: nat

definition activity_levels :: "string list" where
  "activity_levels = [''Sedentary'', ''Light'', ''Moderate'', ''Intense'']"

definition str_tenths :: "int \<Rightarrow> string" where
  "str_tenths t = str_int (t div 10) @ ''.'' @ str_int (t mod 10)"

definition degree_sign :: char where
  "degree_sign = CHR 0xB0"

definition sample_fields :: "sample_draws \<Rightarrow> field_map" where
  "sample_fields r =
     (let heart_rate = str_int (randint 60 100 (heart_rate_draw r)) @ '' bpm'';
          systolic = randint 110 130 (systolic_draw r);
          diastolic = randint 70 90 (diastolic_draw r);
          blood_pressure = str_int systolic @ ''/'' @ str_int diastolic @ '' mmHg'';
          oxygen_saturation = str_int (randint 95 100 (oxygen_saturation_draw r)) @ ''%'';
          respiratory_rate = str_int (randint 12 20 (respiratory_rate_draw r)) @ '' breaths/min'';
          steps = randint 1000 10000 (steps_draw r);
          activity_level = activity_levels ! (activity_level_draw r mod length activity_levels);
          sleep_duration = str_int (randint 6 9 (sleep_duration_draw r)) @ '' hours'';
          glucose_level = str_int (randint 80 110 (glucose_level_draw r)) @ '' mg/dL'';
          temperature = str_tenths (randint 365 375 (temperature_draw r)) @ [degree_sign, CHR ''C'']
      in [(''heart_rate'', StrV heart_rate),
          (''blood_pressure'', StrV blood_pressure),
          (''oxygen_saturation'', StrV oxygen_saturation),
          (''respiratory_rate'', StrV respiratory_rate),
          (''steps'', IntV steps),
          (''activity_level'', StrV activity_level),
          (''sleep_duration'', StrV sleep_duration),
          (''glucose_level'', StrV glucose_level),
          (''temperature'', StrV temperature)])"

subsection \<open>The size-convergence loop of \<open>generate_data\<close>\<close>

text \<open>
  The slice \<open>s[:k]\<close>: a negative bound counts from the end and is cut off at 0,
  so \<open>''[:-1]\<close> is the empty string.
\<close>

definition slice_to :: "string \<Rightarrow> int \<Rightarrow> string" where
  "slice_to s k = take (nat (if k < 0 then max 0 (int (length s) + k) else k)) s"

text \<open>
  The body of the loop after the key is chosen: \<open>isinstance\<close> selects the branch,
  a string loses its last character, an integer is decreased by one.
\<close>

definition shrink_field :: "field_map \<Rightarrow> string \<Rightarrow> py_error + field_map" where
  "shrink_field data key =
     (case map_of data key of
        None \<Rightarrow> Inl KeyError
      | Some (StrV s) \<Rightarrow> Inr (AList.update key (StrV (slice_to s (int (length s) - 1))) data)
      | Some (IntV n) \<Rightarrow> Inr (AList.update key (IntV (n - 1)) data))"

text \<open>
  The \<open>while\<close> loop. Each iteration consumes one raw draw for
  \<open>random.choice(list(data.keys()))\<close>; the list of draws is a finite prefix of
  the generator's output, and a run that needs more of them is \<open>Unfinished\<close>.
\<close>

fun shrink_loop :: "nat list \<Rightarrow> field_map \<Rightarrow> int \<Rightarrow> field_map outcome" where
  "shrink_loop [] data target_size =
     (if calculate_data_size data > target_size then Unfinished else Returned data)"
| "shrink_loop (r # rs) data target_size =
     (if calculate_data_size data > target_size then
        (case random_choice (map fst data) r of
           Inl e \<Rightarrow> Raised e
         | Inr key \<Rightarrow>
             (case shrink_field data key of
                Inl e \<Rightarrow> Raised e
              | Inr data' \<Rightarrow> shrink_loop rs data' target_size))
      else Returned data)"

definition generate_data :: "sample_draws \<Rightarrow> nat list \<Rightarrow> int \<Rightarrow> field_map outcome" where
  "generate_data r rs target_size = shrink_loop rs (sample_fields r) target_size"

subsection \<open>\<open>generate_record\<close>\<close>

record rand_source =
  device_draw :: nat
  time_draws :: timestamp_draws
  field_draws :: sample_draws
  loop_draws :: "nat list"
  location_draw :: nat

record telemetry_record =
  patient_id :: string
  device_id :: string
  timestamp :: int
  data :: field_map
  location :: string

definition locations :: "string list" where
  "locations = [''Home'', ''Clinic'', ''Hospital'']"

definition generate_record :: "rand_source \<Rightarrow> int \<Rightarrow> int \<Rightarrow> int \<Rightarrow> telemetry_record outcome" where
  "generate_record g now i target_size =
     (case generate_data (field_draws g) (loop_draws g)
             (target_size - int (length (utf8_encode (generate_patient_id i)))) of
        Returned d \<Rightarrow>
          Returned \<lparr> patient_id = generate_patient_id i,
                     device_id = generate_device_id (device_draw g),
                     timestamp = random_timestamp now (time_draws g),
                     data = d,
                     location = locations ! (location_draw g mod length locations) \<rparr>
      | Raised e \<Rightarrow> Raised e
      | Unfinished \<Rightarrow> Unfinished)"

subsection \<open>The module-level generator as a state\<close>

text \<open>
  \<open>generate_record\<close> above receives the result of every call of the random
  module as an input. The functions below thread the generator itself through
  the same statements, in the order in which the source executes them.
  \<open>random.seed(s)\<close> fixes the sequence of raw numbers the generator hands out;
  that sequence is \<open>gen s\<close> (the algorithm of the generator is library code, so
  \<open>gen\<close> is a parameter), and the state of the generator is the sequence
  together with the position of the next number. The dictionary literal of
  \<open>generate_record\<close> evaluates its entries from top to bottom: the device id
  (one draw), the timestamp (days, hours, minutes, seconds), the payload (ten
  draws and one per iteration of the loop), the location (one draw).
  \<open>datetime.now()\<close> does not touch the generator. \<open>fuel\<close> bounds the number of
  iterations of the \<open>while\<close> loop that are followed; a run that needs more is
  \<open>Unfinished\<close>.
\<close>

type_synonym rng = "(nat \<Rightarrow> nat) \<times> nat"

definition random_seed :: "(int \<Rightarrow> nat \<Rightarrow> nat) \<Rightarrow> int \<Rightarrow> rng" where
  "random_seed gen s = (gen s, 0)"

definition draw :: "rng \<Rightarrow> nat \<times> rng" where
  "draw g = (fst g (snd g), (fst g, Suc (snd g)))"

definition generate_device_id_st :: "rng \<Rightarrow> string \<times> rng" where
  "generate_device_id_st g = (case draw g of (r, g1) \<Rightarrow> (generate_device_id r, g1))"

definition random_timestamp_st :: "int \<Rightarrow> rng \<Rightarrow> int \<times> rng" where
  "random_timestamp_st now g =
     (case draw g of (d, g1) \<Rightarrow>
      case draw g1 of (h, g2) \<Rightarrow>
      case draw g2 of (m, g3) \<Rightarrow>
      case draw g3 of (s, g4) \<Rightarrow>
        (random_timestamp now
           \<lparr> days_draw = d, hours_draw = h, minutes_draw = m, seconds_draw = s \<rparr>, g4))"

definition sample_fields_st :: "rng \<Rightarrow> field_map \<times> rng" where
  "sample_fields_st g =
     (case draw g of (hr, g1) \<Rightarrow>
      case draw g1 of (sy, g2) \<Rightarrow>
      case draw g2 of (di, g3) \<Rightarrow>
      case draw g3 of (ox, g4) \<Rightarrow>
      case draw g4 of (re, g5) \<Rightarrow>
      case draw g5 of (st, g6) \<Rightarrow>
      case draw g6 of (ac, g7) \<Rightarrow>
      case draw g7 of (sl, g8) \<Rightarrow>
      case draw g8 of (gl, g9) \<Rightarrow>
      case draw g9 of (te, g10) \<Rightarrow>
        (sample_fields
           \<lparr> heart_rate_draw = hr, systolic_draw = sy, diastolic_draw = di,
             oxygen_saturation_draw = ox, respiratory_rate_draw = re, steps_draw = st,
             activity_level_draw = ac, sleep_duration_draw = sl, glucose_level_draw = gl,
             temperature_draw = te \<rparr>, g10))"

fun shrink_loop_st :: "nat \<Rightarrow> rng \<Rightarrow> field_map \<Rightarrow> int \<Rightarrow> (field_map \<times> rng) outcome" where
  "shrink_loop_st 0 g d target_size =
     (if calculate_data_size d > target_size then Unfinished else Returned (d, g))"
| "shrink_loop_st (Suc n) g d target_size =
     (if calculate_data_size d > target_size then
        (case draw g of (r, g1) \<Rightarrow>
           (case random_choice (map fst d) r of
              Inl e \<Rightarrow> Raised e
            | Inr key \<Rightarrow>
                (case shrink_field d key of
                   Inl e \<Rightarrow> Raised e
                 | Inr d' \<Rightarrow> shrink_loop_st n g1 d' target_size)))
      else Returned (d, g))"

definition generate_data_st :: "nat \<Rightarrow> rng \<Rightarrow> int \<Rightarrow> (field_map \<times> rng) outcome" where
  "generate_data_st fuel g target_size =
     (case sample_fields_st g of (d, g1) \<Rightarrow> shrink_loop_st fuel g1 d target_size)"

definition generate_record_st ::
  "nat \<Rightarrow> rng \<Rightarrow> int \<Rightarrow> int \<Rightarrow> int \<Rightarrow> (telemetry_record \<times> rng) outcome" where
  "generate_record_st fuel g now i target_size =
     (case generate_device_id_st g of (dev, g1) \<Rightarrow>
      case random_timestamp_st now g1 of (ts, g2) \<Rightarrow>
      case generate_data_st fuel g2
             (target_size - int (length (utf8_encode (generate_patient_id i)))) of
        Returned (d, g3) \<Rightarrow>
          (case draw g3 of (l, g4) \<Rightarrow>
             Returned (\<lparr> patient_id = generate_patient_id i, device_id = dev, timestamp = ts,
                          data = d, location = locations ! (l mod length locations) \<rparr>, g4))
      | Raised e \<Rightarrow> Raised e
      | Unfinished \<Rightarrow> Unfinished)"

section \<open>Notions used to state the properties\<close>

subsection \<open>Sizes\<close>

definition is_ascii :: "char \<Rightarrow> bool" where
  "is_ascii c = ((of_char c :: nat) < 128)"

definition utf8_length :: "string \<Rightarrow> nat" where
  "utf8_length s = length (utf8_encode s)"

definition item_len :: "string \<times> field_value \<Rightarrow> nat" where
  "item_len kv = length (encode_item kv)"

text \<open>
  The minimum achievable size of a payload: the size estimate of the payload
  whose string fields are empty and whose counters are 0.
\<close>

definition minimal_value :: "field_value \<Rightarrow> field_value" where
  "minimal_value v = (case v of StrV s \<Rightarrow> StrV [] | IntV n \<Rightarrow> IntV 0)"

definition minimal_fields :: "field_map \<Rightarrow> field_map" where
  "minimal_fields d = map (\<lambda>kv. (fst kv, minimal_value (snd kv))) d"

definition min_achievable_size :: "field_map \<Rightarrow> int" where
  "min_achievable_size d = calculate_data_size (minimal_fields d)"

subsection \<open>Runs in which every selection can still shrink\<close>

text \<open>
  \<open>selects_shrinkable rs d t\<close>: in the run of the loop on \<open>d\<close> with the draws
  \<open>rs\<close>, every iteration that is executed selects a field holding a non-empty
  string.
\<close>

fun nonempty_str :: "field_value option \<Rightarrow> bool" where
  "nonempty_str (Some (StrV s)) = (s \<noteq> [])"
| "nonempty_str (Some (IntV n)) = False"
| "nonempty_str None = False"

fun selects_shrinkable :: "nat list \<Rightarrow> field_map \<Rightarrow> int \<Rightarrow> bool" where
  "selects_shrinkable [] d t = True"
| "selects_shrinkable (r # rs) d t =
     (if calculate_data_size d > t then
        (case random_choice (map fst d) r of
           Inl e \<Rightarrow> False
         | Inr key \<Rightarrow>
             nonempty_str (map_of d key) \<and>
             (case shrink_field d key of
                Inl e \<Rightarrow> False
              | Inr d' \<Rightarrow> selects_shrinkable rs d' t))
      else True)"

subsection \<open>Counting the iterations of a run\<close>

text \<open>
  \<open>selections rs d t k\<close> is the number of iterations, in the run of the loop on
  \<open>d\<close> with the draws \<open>rs\<close> and the target \<open>t\<close>, that select the key \<open>k\<close>;
  \<open>iterations rs d t\<close> is the number of all iterations of that run. Draws that
  are supplied but not consumed are not counted.
\<close>

fun selections :: "nat list \<Rightarrow> field_map \<Rightarrow> int \<Rightarrow> string \<Rightarrow> nat" where
  "selections [] d t k = 0"
| "selections (r # rs) d t k =
     (if calculate_data_size d > t then
        (case random_choice (map fst d) r of
           Inl e \<Rightarrow> 0
         | Inr key \<Rightarrow>
             (case shrink_field d key of
                Inl e \<Rightarrow> 0
              | Inr d' \<Rightarrow> (if key = k then 1 else 0) + selections rs d' t k))
      else 0)"

fun iterations :: "nat list \<Rightarrow> field_map \<Rightarrow> int \<Rightarrow> nat" where
  "iterations [] d t = 0"
| "iterations (r # rs) d t =
     (if calculate_data_size d > t then
        (case random_choice (map fst d) r of
           Inl e \<Rightarrow> 0
         | Inr key \<Rightarrow>
             (case shrink_field d key of
                Inl e \<Rightarrow> 0
              | Inr d' \<Rightarrow> Suc (iterations rs d' t)))
      else 0)"

fun returned :: "'a outcome \<Rightarrow> bool" where
  "returned (Returned x) = True"
| "returned (Raised e) = False"
| "returned Unfinished = False"

subsection \<open>The draws a seeded run takes\<close>

text \<open>
  The draws that a call of \<open>generate_record\<close> takes from the sequence \<open>out\<close> when
  the generator stands at position \<open>p\<close>: fifteen before the loop, one per
  iteration, and one for the location after the loop.
\<close>

definition time_draws_at :: "(nat \<Rightarrow> nat) \<Rightarrow> nat \<Rightarrow> timestamp_draws" where
  "time_draws_at out p =
     \<lparr> days_draw = out p, hours_draw = out (p + 1), minutes_draw = out (p + 2),
       seconds_draw = out (p + 3) \<rparr>"

definition field_draws_at :: "(nat \<Rightarrow> nat) \<Rightarrow> nat \<Rightarrow> sample_draws" where
  "field_draws_at out p =
     \<lparr> heart_rate_draw = out p, systolic_draw = out (p + 1), diastolic_draw = out (p + 2),
       oxygen_saturation_draw = out (p + 3), respiratory_rate_draw = out (p + 4),
       steps_draw = out (p + 5), activity_level_draw = out (p + 6),
       sleep_duration_draw = out (p + 7), glucose_level_draw = out (p + 8),
       temperature_draw = out (p + 9) \<rparr>"

definition loop_draws_at :: "(nat \<Rightarrow> nat) \<Rightarrow> nat \<Rightarrow> nat \<Rightarrow> nat list" where
  "loop_draws_at out p n = map out [p..<p + n]"

definition loop_steps_at :: "(nat \<Rightarrow> nat) \<Rightarrow> nat \<Rightarrow> nat \<Rightarrow> int \<Rightarrow> nat" where
  "loop_steps_at out p n t =
     iterations (loop_draws_at out (p + 15) n) (sample_fields (field_draws_at out (p + 5))) t"

definition source_at :: "(nat \<Rightarrow> nat) \<Rightarrow> nat \<Rightarrow> nat \<Rightarrow> int \<Rightarrow> rand_source" where
  "source_at out p n t =
     \<lparr> device_draw = out p, time_draws = time_draws_at out (p + 1),
       field_draws = field_draws_at out (p + 5), loop_draws = loop_draws_at out (p + 15) n,
       location_draw = out (p + 15 + loop_steps_at out p n t) \<rparr>"

subsection \<open>Reading a patient id back\<close>

definition digit_value :: "char \<Rightarrow> nat" where
  "digit_value c = of_char c - 48"

definition digits_value :: "string \<Rightarrow> nat" where
  "digits_value s = foldl (\<lambda>a c. 10 * a + digit_value c) 0 s"

definition decode_05d :: "string \<Rightarrow> int" where
  "decode_05d s =
     (if CHR ''-'' \<in> set s then - int (digits_value (tl s)) else int (digits_value s))"

subsection \<open>The canonical compact encoding of the specification\<close>

text \<open>
  The specification describes the size estimate as the byte length of a compact
  encoding: keys in the order of the map, no whitespace around the separators,
  UTF-8. \<open>spec_compact_encoding\<close> follows these words: the items are joined
  with \<open>","\<close>, key and value with \<open>":"\<close>, and a character above \<open>'~'\<close> is written
  as itself, so that UTF-8 encodes it.
\<close>

definition spec_escape_char :: "char \<Rightarrow> string" where
  "spec_escape_char c = (if 0x7E < (of_char c :: nat) then [c] else escape_char c)"

definition spec_encode_string :: "string \<Rightarrow> string" where
  "spec_encode_string s = [CHR 0x22] @ concat (map spec_escape_char s) @ [CHR 0x22]"

fun spec_encode_value :: "field_value \<Rightarrow> string" where
  "spec_encode_value (StrV s) = spec_encode_string s"
| "spec_encode_value (IntV n) = str_int n"

definition spec_encode_item :: "string \<times> field_value \<Rightarrow> string" where
  "spec_encode_item kv = spec_encode_string (fst kv) @ '':'' @ spec_encode_value (snd kv)"

definition spec_compact_encoding :: "field_map \<Rightarrow> string" where
  "spec_compact_encoding d = ''{'' @ join '','' (map spec_encode_item d) @ ''}''"

definition spec_compact_size :: "field_map \<Rightarrow> int" where
  "spec_compact_size d = int (length (utf8_encode (spec_compact_encoding d)))"

text \<open>
  What \<open>ensure_ascii\<close> adds to a character: \<open>\\u007f\<close> is six bytes instead of
  one, \<open>\\u00XX\<close> for a code point from 128 is six bytes instead of two.
\<close>

definition escape_overhead_char :: "char \<Rightarrow> nat" where
  "escape_overhead_char c =
     (let n = (of_char c :: nat) in if n = 0x7F then 5 else if 0x7F < n then 4 else 0)"

definition escape_overhead_str :: "string \<Rightarrow> nat" where
  "escape_overhead_str s = sum_list (map escape_overhead_char s)"

fun escape_overhead_value :: "field_value \<Rightarrow> nat" where
  "escape_overhead_value (StrV s) = escape_overhead_str s"
| "escape_overhead_value (IntV n) = 0"

definition escape_overhead :: "field_map \<Rightarrow> nat" where
  "escape_overhead d =
     sum_list (map (\<lambda>kv. escape_overhead_str (fst kv) + escape_overhead_value (snd kv)) d)"

subsection \<open>A concrete run\<close>

definition example_draws :: sample_draws where
  "example_draws =
     \<lparr> heart_rate_draw = 12, systolic_draw = 0, diastolic_draw = 0,
       oxygen_saturation_draw = 0, respiratory_rate_draw = 0, steps_draw = 0,
       activity_level_draw = 0, sleep_duration_draw = 0, glucose_level_draw = 0,
       temperature_draw = 1 \<rparr>"

definition example_fields :: field_map where
  "example_fields =
     [(''heart_rate'', StrV ''72 bpm''),
      (''blood_pressure'', StrV ''110/70 mmHg''),
      (''oxygen_saturation'', StrV ''95%''),
      (''respiratory_rate'', StrV ''12 breaths/min''),
      (''steps'', IntV 1000),
      (''activity_level'', StrV ''Sedentary''),
      (''sleep_duration'', StrV ''6 hours''),
      (''glucose_level'', StrV ''80 mg/dL''),
      (''temperature'', StrV [CHR ''3'', CHR ''6'', CHR ''.'', CHR ''6'', CHR 0xB0, CHR ''C''])]"

definition example_time_draws :: timestamp_draws where
  "example_time_draws = \<lparr> days_draw = 30, hours_draw = 23, minutes_draw = 59, seconds_draw = 59 \<rparr>"

definition example_source :: rand_source where
  "example_source =
     \<lparr> device_draw = 2345, time_draws = example_time_draws, field_draws = example_draws,
       loop_draws = [4, 0, 7], location_draw = 1 \<rparr>"

text \<open>
  The payload after the draws \<open>[4, 0, 7]\<close> (\<open>steps\<close>, \<open>heart_rate\<close>,
  \<open>glucose_level\<close>), and the record assembled around it.
\<close>

definition example_shrunk_fields :: field_map where
  "example_shrunk_fields =
     [(''heart_rate'', StrV ''72 bp''),
      (''blood_pressure'', StrV ''110/70 mmHg''),
      (''oxygen_saturation'', StrV ''95%''),
      (''respiratory_rate'', StrV ''12 breaths/min''),
      (''steps'', IntV 999),
      (''activity_level'', StrV ''Sedentary''),
      (''sleep_duration'', StrV ''6 hours''),
      (''glucose_level'', StrV ''80 mg/d''),
      (''temperature'', StrV [CHR ''3'', CHR ''6'', CHR ''.'', CHR ''6'', CHR 0xB0, CHR ''C''])]"

definition example_record :: "int \<Rightarrow> field_map \<Rightarrow> telemetry_record" where
  "example_record now d =
     \<lparr> patient_id = ''P00001'', device_id = ''D12345'',
       timestamp = (now - 2678399000000) div 1000000,
       data = d, location = ''Clinic'' \<rparr>"

text \<open>The payload after 1001 selections of \<open>steps\<close> and three of \<open>heart_rate\<close>.\<close>

definition example_negative_fields :: field_map where
  "example_negative_fields =
     [(''heart_rate'', StrV ''72 ''),
      (''blood_pressure'', StrV ''110/70 mmHg''),
      (''oxygen_saturation'', StrV ''95%''),
      (''respiratory_rate'', StrV ''12 breaths/min''),
      (''steps'', IntV (- 1)),
      (''activity_level'', StrV ''Sedentary''),
      (''sleep_duration'', StrV ''6 hours''),
      (''glucose_level'', StrV ''80 mg/dL''),
      (''temperature'', StrV [CHR ''3'', CHR ''6'', CHR ''.'', CHR ''6'', CHR 0xB0, CHR ''C''])]"

definition field_names :: "string list" where
  "field_names =
     [''heart_rate'', ''blood_pressure'', ''oxygen_saturation'', ''respiratory_rate'', ''steps'',
      ''activity_level'', ''sleep_duration'', ''glucose_level'', ''temperature'']"

text \<open>
  A generator whose seed 42 hands out the draws of \<open>example_source\<close> in the order
  of the source.
\<close>

definition example_generator :: "int \<Rightarrow> nat \<Rightarrow> nat" where
  "example_generator s k =
     (if s = 42 \<and> k < 19
      then [2345, 30, 23, 59, 59, 12, 0, 0, 0, 0, 0, 0, 0, 0, 1, 4, 0, 7, 1] ! k
      else 0)"

section \<open>Properties\<close>

subsection \<open>The JSON text and its length\<close>

lemma length_join: "length (join sep xs) = sum_list (map length xs) + length sep * (length xs - 1)"
  by (induction sep xs rule: join.induct) auto

lemma length_utf8_ascii: "list_all is_ascii s \<Longrightarrow> length (utf8_encode s) = length s"
  by (induction s) (auto simp: utf8_encode_def utf8_char_def is_ascii_def)

lemma nat_less_10_cases: "(d::nat) < 10 \<Longrightarrow> d \<in> {0,1,2,3,4,5,6,7,8,9}"
  by simp arith

lemma nat_less_16_cases: "(d::nat) < 16 \<Longrightarrow> d \<in> {0,1,2,3,4,5,6,7,8,9,10,11,12,13,14,15}"
  by simp arith

lemma digit_char_ascii: "d < 10 \<Longrightarrow> is_ascii (digit_char d)"
  by (drule nat_less_10_cases) (auto simp: digit_char_def is_ascii_def)

lemma hex_char_ascii: "d < 16 \<Longrightarrow> is_ascii (hex_char d)"
  by (drule nat_less_16_cases) (auto simp: hex_char_def is_ascii_def)

lemma of_char_less_256: "(of_char c :: nat) < 256"
  by (cases c) simp

lemma escape_char_ascii: "list_all is_ascii (escape_char c)"
proof -
  have "(of_char c :: nat) div 16 < 16" "(of_char c :: nat) mod 16 < 16"
    using of_char_less_256 [of c] by arith+
  then have "is_ascii (hex_char (of_char c div 16))" "is_ascii (hex_char (of_char c mod 16))"
    by (simp_all add: hex_char_ascii)
  then show ?thesis
    by (auto simp: escape_char_def Let_def is_ascii_def)
qed

lemma digits_ascii: "list_all is_ascii (digits n)"
proof (induction n rule: digits.induct)
  case (1 n)
  show ?case
  proof (cases "n < 10")
    case True
    then show ?thesis by (simp add: digits.simps [of n] digit_char_ascii)
  next
    case False
    then show ?thesis using 1 by (simp add: digits.simps [of n] digit_char_ascii)
  qed
qed

lemma str_int_ascii: "list_all is_ascii (str_int i)"
  by (simp add: str_int_def digits_ascii is_ascii_def)

lemma encode_basestring_ascii_ascii: "list_all is_ascii (encode_basestring_ascii s)"
  by (induction s)
    (simp_all add: encode_basestring_ascii_def is_ascii_def escape_char_ascii [unfolded is_ascii_def])

lemma encode_value_ascii: "list_all is_ascii (encode_value v)"
  by (cases v) (simp_all add: encode_basestring_ascii_ascii str_int_ascii)

lemma encode_item_ascii: "list_all is_ascii (encode_item kv)"
  by (simp add: encode_item_def encode_basestring_ascii_ascii encode_value_ascii is_ascii_def)

lemma join_ascii:
  "list_all is_ascii sep \<Longrightarrow> \<forall>x\<in>set xs. list_all is_ascii x \<Longrightarrow> list_all is_ascii (join sep xs)"
  by (induction sep xs rule: join.induct) auto

lemma json_dumps_ascii: "list_all is_ascii (json_dumps d)"
  by (simp add: json_dumps_def join_ascii encode_item_ascii is_ascii_def)

lemma calculate_data_size_length: "calculate_data_size d = int (length (json_dumps d))"
  by (simp add: calculate_data_size_def length_utf8_ascii json_dumps_ascii)

lemma length_json_dumps:
  "length (json_dumps d) = 2 + sum_list (map item_len d) + 2 * (length d - 1)"
  by (simp add: json_dumps_def length_join comp_def item_len_def [abs_def])

lemma item_len_eq:
  "item_len (k, v) = length (encode_basestring_ascii k) + 2 + length (encode_value v)"
  by (simp add: item_len_def encode_item_def)

subsection \<open>One assignment \<open>data[key] = v\<close>\<close>

lemma sum_list_update:
  "map_of d k = Some v \<Longrightarrow>
   sum_list (map f (AList.update k v' d)) + f (k, v) = sum_list (map f d) + (f (k, v') :: nat)"
  by (induction d) (auto split: if_splits)

lemma length_update_present: "map_of d k = Some v \<Longrightarrow> length (AList.update k v' d) = length d"
  by (induction d) (auto split: if_splits)

lemma calculate_data_size_update:
  assumes "map_of d k = Some v"
  shows "calculate_data_size (AList.update k v' d) =
         calculate_data_size d - int (length (encode_value v)) + int (length (encode_value v'))"
  using sum_list_update [OF assms, of item_len v'] length_update_present [OF assms, of v']
  by (simp add: calculate_data_size_length length_json_dumps item_len_eq)

lemma map_of_Some_key: "map_of d k = Some v \<Longrightarrow> k \<in> fst ` set d"
  by (metis domI dom_map_of_conv_image_fst)

lemma map_of_key_present: "key \<in> set (map fst d) \<Longrightarrow> \<exists>v. map_of d key = Some v"
  by (induction d) auto

subsection \<open>One iteration of the loop\<close>

lemma random_choice_nonempty:
  "xs \<noteq> [] \<Longrightarrow> \<exists>x. random_choice xs r = Inr x \<and> x \<in> set xs"
  by (simp add: random_choice_def)

lemma slice_to_butlast: "slice_to s (int (length s) - 1) = butlast s"
  by (cases "s = []") (auto simp: slice_to_def butlast_conv_take nat_diff_distrib')

lemma shrink_field_keys: "shrink_field d key = Inr d' \<Longrightarrow> map fst d' = map fst d"
  by (auto simp: shrink_field_def update_keys map_of_Some_key
      split: option.splits field_value.splits)

lemma shrink_field_present: "key \<in> set (map fst d) \<Longrightarrow> \<exists>d'. shrink_field d key = Inr d'"
  by (drule map_of_key_present) (auto simp: shrink_field_def split: field_value.splits)

lemma shrink_field_nonempty: "shrink_field d key = Inr d' \<Longrightarrow> d' \<noteq> []"
  by (auto simp: shrink_field_def split: option.splits field_value.splits)

subsection \<open>The loop\<close>

lemma shrink_loop_keys: "shrink_loop rs d t = Returned d' \<Longrightarrow> map fst d' = map fst d"
proof (induction rs arbitrary: d)
  case Nil
  then show ?case by (simp split: if_splits)
next
  case (Cons r rs)
  then show ?case
    by (auto split: if_splits sum.splits dest: shrink_field_keys)
qed

lemma shrink_loop_size: "shrink_loop rs d t = Returned d' \<Longrightarrow> calculate_data_size d' \<le> t"
proof (induction rs arbitrary: d)
  case Nil
  then show ?case by (simp split: if_splits)
next
  case (Cons r rs)
  then show ?case
    by (auto split: if_splits sum.splits)
qed

lemma shrink_loop_satisfied: "calculate_data_size d \<le> t \<Longrightarrow> shrink_loop rs d t = Returned d"
  by (cases rs) simp_all

subsection \<open>The minimum achievable size\<close>

lemma digits_nonempty: "digits n \<noteq> []"
  by (subst digits.simps) simp

lemma length_str_int_pos: "1 \<le> length (str_int i)"
  using digits_nonempty [of "nat i"] by (auto simp: str_int_def Suc_le_eq)

lemma str_int_0: "str_int 0 = ''0''"
  by (simp add: str_int_def digits.simps digit_char_def)

lemma minimal_value_len: "length (encode_value (minimal_value v)) \<le> length (encode_value v)"
  using length_str_int_pos
  by (cases v) (auto simp: minimal_value_def encode_basestring_ascii_def str_int_0)

lemma min_achievable_size_le: "min_achievable_size d \<le> calculate_data_size d"
proof -
  have "sum_list (map item_len (minimal_fields d)) \<le> sum_list (map item_len d)"
    unfolding minimal_fields_def map_map
    by (rule sum_list_mono) (auto simp: item_len_def encode_item_def minimal_value_len)
  then show ?thesis
    by (simp add: min_achievable_size_def calculate_data_size_length length_json_dumps
        minimal_fields_def)
qed

lemma minimal_fields_update:
  "minimal_fields (AList.update k v d) = AList.update k (minimal_value v) (minimal_fields d)"
  by (induction d) (auto simp: minimal_fields_def)

lemma map_of_minimal_fields:
  "map_of (minimal_fields d) k = map_option minimal_value (map_of d k)"
  by (induction d) (auto simp: minimal_fields_def)

lemma shrink_field_minimal: "shrink_field d key = Inr d' \<Longrightarrow> minimal_fields d' = minimal_fields d"
  by (auto simp: shrink_field_def minimal_fields_update map_of_minimal_fields minimal_value_def
      split: option.splits field_value.splits intro!: update_triv)

lemma shrink_loop_below_minimum:
  "d \<noteq> [] \<Longrightarrow> t < min_achievable_size d \<Longrightarrow> shrink_loop rs d t = Unfinished"
proof (induction rs arbitrary: d)
  case Nil
  then show ?case using min_achievable_size_le [of d] by simp
next
  case (Cons r rs)
  from Cons.prems obtain key
    where key: "random_choice (map fst d) r = Inr key" "key \<in> set (map fst d)"
    using random_choice_nonempty [of "map fst d" r] by auto
  then obtain d' where d': "shrink_field d key = Inr d'"
    using shrink_field_present by blast
  have "min_achievable_size d' = min_achievable_size d"
    using shrink_field_minimal [OF d'] by (simp add: min_achievable_size_def)
  with Cons.prems have "shrink_loop rs d' t = Unfinished"
    using Cons.IH [of d'] shrink_field_nonempty [OF d'] by simp
  then show ?case
    using Cons.prems key d' min_achievable_size_le [of d] by simp
qed

lemma min_achievable_size_ge_2: "2 \<le> min_achievable_size d"
  by (simp add: min_achievable_size_def calculate_data_size_length length_json_dumps)

subsection \<open>Selecting a non-empty string\<close>

lemma escape_char_nonempty: "escape_char c \<noteq> []"
  by (simp add: escape_char_def Let_def)

lemma length_encode_snoc:
  "length (encode_basestring_ascii (s @ [c])) =
   length (encode_basestring_ascii s) + length (escape_char c)"
  by (simp add: encode_basestring_ascii_def)

lemma length_encode_butlast:
  assumes "s \<noteq> []"
  shows "length (encode_basestring_ascii (butlast s)) < length (encode_basestring_ascii s)"
proof -
  have "length (encode_basestring_ascii (butlast s @ [last s])) =
        length (encode_basestring_ascii (butlast s)) + length (escape_char (last s))"
    by (rule length_encode_snoc)
  moreover have "0 < length (escape_char (last s))"
    using escape_char_nonempty by simp
  ultimately show ?thesis using assms by simp
qed

lemma shrink_field_str_size:
  assumes "map_of d key = Some (StrV s)" "s \<noteq> []" "shrink_field d key = Inr d'"
  shows "calculate_data_size d' < calculate_data_size d"
proof -
  have "d' = AList.update key (StrV (butlast s)) d"
    using assms by (simp add: shrink_field_def slice_to_butlast)
  then show ?thesis
    using calculate_data_size_update [OF assms(1), of "StrV (butlast s)"]
      length_encode_butlast [OF assms(2)] by simp
qed

lemma shrink_loop_returns_aux:
  "selects_shrinkable rs d t \<Longrightarrow> calculate_data_size d - t \<le> int (length rs) \<Longrightarrow>
   \<exists>d'. shrink_loop rs d t = Returned d' \<and> calculate_data_size d' \<le> t"
proof (induction rs arbitrary: d)
  case Nil
  then show ?case by simp
next
  case (Cons r rs)
  show ?case
  proof (cases "calculate_data_size d > t")
    case False
    then show ?thesis by simp
  next
    case True
    with Cons.prems(1) obtain key s d1
      where key: "random_choice (map fst d) r = Inr key"
        and s: "map_of d key = Some (StrV s)" "s \<noteq> []"
        and d1: "shrink_field d key = Inr d1"
        and rest: "selects_shrinkable rs d1 t"
      by (auto split: sum.splits elim: nonempty_str.elims)
    have "calculate_data_size d1 < calculate_data_size d"
      using shrink_field_str_size [OF s d1] .
    with Cons.prems(2) have "calculate_data_size d1 - t \<le> int (length rs)" by simp
    from Cons.IH [OF rest this] show ?thesis
      using True key d1 by simp
  qed
qed

subsection \<open>Selecting a counter\<close>

lemma shrink_field_counter_exact:
  "shrink_field d key = Inr d1 \<Longrightarrow> map_of d k = Some (IntV n) \<Longrightarrow>
   map_of d1 k = Some (IntV (n - (if key = k then 1 else 0)))"
  by (auto simp: shrink_field_def update_conv' split: option.splits field_value.splits)

lemma shrink_loop_counter_exact:
  "shrink_loop rs d t = Returned d' \<Longrightarrow> map_of d k = Some (IntV n) \<Longrightarrow>
   map_of d' k = Some (IntV (n - int (selections rs d t k)))"
proof (induction rs arbitrary: d n)
  case Nil
  then show ?case by (simp split: if_splits)
next
  case (Cons r rs)
  show ?case
  proof (cases "calculate_data_size d > t")
    case False
    with Cons.prems show ?thesis by simp
  next
    case True
    with Cons.prems(1) obtain key d1
      where key: "random_choice (map fst d) r = Inr key"
        and d1: "shrink_field d key = Inr d1" and run: "shrink_loop rs d1 t = Returned d'"
      by (auto split: sum.splits)
    let ?n1 = "n - (if key = k then 1 else 0)"
    have "map_of d1 k = Some (IntV ?n1)"
      by (rule shrink_field_counter_exact [OF d1 Cons.prems(2)])
    from Cons.IH [OF run this]
    have "map_of d' k = Some (IntV (?n1 - int (selections rs d1 t k)))" .
    moreover have "selections (r # rs) d t k = (if key = k then 1 else 0) + selections rs d1 t k"
      using True key d1 by simp
    ultimately show ?thesis by simp
  qed
qed

lemma shrink_loop_counter_run:
  assumes "map_of d key = Some (IntV v)" "random_choice (map fst d) r = Inr key"
    "t < calculate_data_size d - int (length (str_int v)) + 1"
  shows "shrink_loop (replicate n r @ rs) d t =
         shrink_loop rs (AList.update key (IntV (v - int n)) d) t"
  using assms
proof (induction n arbitrary: d v)
  case 0
  then show ?case by (simp add: update_triv)
next
  case (Suc n)
  let ?d1 = "AList.update key (IntV (v - 1)) d"
  have big: "t < calculate_data_size d"
    using Suc.prems(3) length_str_int_pos [of v] by linarith
  have step: "shrink_field d key = Inr ?d1"
    using Suc.prems(1) by (simp add: shrink_field_def)
  have m1: "map_of ?d1 key = Some (IntV (v - 1))"
    by (simp add: update_conv')
  have k1: "random_choice (map fst ?d1) r = Inr key"
    using Suc.prems(2) shrink_field_keys [OF step] by simp
  have s1: "t < calculate_data_size ?d1 - int (length (str_int (v - 1))) + 1"
    using Suc.prems(3) calculate_data_size_update [OF Suc.prems(1), of "IntV (v - 1)"] by simp
  have "shrink_loop (replicate n r @ rs) ?d1 t =
        shrink_loop rs (AList.update key (IntV (v - 1 - int n)) ?d1) t"
    by (rule Suc.IH [OF m1 k1 s1])
  moreover have "v - 1 - int n = v - int (Suc n)" by simp
  ultimately show ?case
    using big step Suc.prems(2) by simp
qed

subsection \<open>Patient ids\<close>

lemma digit_value_digit_char: "d < 10 \<Longrightarrow> digit_value (digit_char d) = d"
  by (drule nat_less_10_cases) (auto simp: digit_char_def digit_value_def)

lemma digit_char_not_minus: "d < 10 \<Longrightarrow> digit_char d \<noteq> CHR ''-''"
  by (drule nat_less_10_cases) (auto simp: digit_char_def)

lemma digits_value_append:
  "digits_value (xs @ ys) = foldl (\<lambda>a c. 10 * a + digit_value c) (digits_value xs) ys"
  by (simp add: digits_value_def)

lemma digits_value_digits: "digits_value (digits n) = n"
proof (induction n rule: digits.induct)
  case (1 n)
  show ?case
  proof (cases "n < 10")
    case True
    then show ?thesis
      by (simp add: digits.simps [of n] digits_value_def digit_value_digit_char)
  next
    case False
    then have "digits_value (digits (n div 10)) = n div 10" using 1 by simp
    with False show ?thesis
      by (simp add: digits.simps [of n] digits_value_append digit_value_digit_char)
  qed
qed

lemma digits_value_zeros: "digits_value (replicate k (CHR ''0'')) = 0"
  by (induction k) (simp_all add: digits_value_def digit_value_def)

lemma digits_value_zero_fill: "digits_value (zero_fill w s) = digits_value s"
  by (simp add: zero_fill_def digits_value_append digits_value_zeros)
    (simp add: digits_value_def)

lemma minus_notin_digits: "CHR ''-'' \<notin> set (digits n)"
proof (induction n rule: digits.induct)
  case (1 n)
  show ?case
  proof (cases "n < 10")
    case True
    then show ?thesis using digit_char_not_minus [of n] by (auto simp: digits.simps [of n])
  next
    case False
    then show ?thesis
      using 1 digit_char_not_minus [of "n mod 10"] by (auto simp: digits.simps [of n])
  qed
qed

lemma decode_format_05d: "decode_05d (format_05d i) = i"
  by (auto simp: decode_05d_def format_05d_def zero_fill_def minus_notin_digits
      digits_value_zero_fill [unfolded zero_fill_def] digits_value_digits)

lemma format_05d_inj: "format_05d i = format_05d j \<Longrightarrow> i = j"
  by (metis decode_format_05d)

lemma generate_patient_id_1: "generate_patient_id 1 = ''P00001''"
  by (simp add: generate_patient_id_def format_05d_def zero_fill_def digits.simps digit_char_def
      eval_nat_numeral)

lemma length_digits_le: "n < 10 ^ k \<Longrightarrow> 0 < k \<Longrightarrow> length (digits n) \<le> k"
proof (induction n arbitrary: k rule: digits.induct)
  case (1 n)
  show ?case
  proof (cases "n < 10")
    case True
    then show ?thesis using 1(3) by (simp add: digits.simps [of n])
  next
    case False
    have "k \<noteq> 1" using 1(2) False by auto
    with 1(3) obtain k' where k': "k = Suc k'" "0 < k'" by (cases k) auto
    with 1(2) have "n div 10 < 10 ^ k'" by (simp add: less_mult_imp_div_less mult.commute)
    from 1(1) [OF False this k'(2)] show ?thesis
      using False k' by (simp add: digits.simps [of n])
  qed
qed

lemma length_generate_patient_id:
  assumes "0 \<le> i" "i < 100000"
  shows "length (generate_patient_id i) = 6"
proof -
  have "nat i < 10 ^ 5" using assms by simp
  then have "length (digits (nat i)) \<le> 5" by (rule length_digits_le) simp
  then show ?thesis using assms
    by (simp add: generate_patient_id_def format_05d_def zero_fill_def)
qed

subsection \<open>The estimate against the compact encoding\<close>

lemma utf8_length_append: "utf8_length (xs @ ys) = utf8_length xs + utf8_length ys"
  by (simp add: utf8_length_def utf8_encode_def)

lemma utf8_length_Cons: "utf8_length (c # s) = length (utf8_char c) + utf8_length s"
  by (simp add: utf8_length_def utf8_encode_def)

lemma utf8_length_Nil: "utf8_length [] = 0"
  by (simp add: utf8_length_def utf8_encode_def)

lemma utf8_length_ascii: "list_all is_ascii s \<Longrightarrow> utf8_length s = length s"
  by (simp add: utf8_length_def length_utf8_ascii)

lemma utf8_length_join: "utf8_length (join sep xs) = sum_list (map utf8_length xs) + utf8_length sep * (length xs - 1)"
  by (induction sep xs rule: join.induct) (auto simp: utf8_length_append utf8_length_Nil)

lemma spec_escape_char_len:
  "utf8_length (spec_escape_char c) + escape_overhead_char c = length (escape_char c)"
proof (cases "0x7E < (of_char c :: nat)")
  case True
  then show ?thesis
    by (auto simp: spec_escape_char_def escape_overhead_char_def escape_char_def Let_def
        utf8_length_Cons utf8_length_Nil utf8_char_def)
next
  case False
  then have "spec_escape_char c = escape_char c" "escape_overhead_char c = 0"
    by (simp_all add: spec_escape_char_def escape_overhead_char_def Let_def)
  then show ?thesis by (simp add: utf8_length_ascii escape_char_ascii)
qed

lemma spec_encode_string_len:
  "utf8_length (spec_encode_string s) + escape_overhead_str s = length (encode_basestring_ascii s)"
proof (induction s)
  case Nil
  then show ?case
    by (simp add: spec_encode_string_def encode_basestring_ascii_def escape_overhead_str_def
        utf8_length_Cons utf8_length_Nil utf8_char_def)
next
  case (Cons c s)
  then show ?case
    using spec_escape_char_len [of c]
    by (simp add: spec_encode_string_def encode_basestring_ascii_def escape_overhead_str_def
        utf8_length_Cons utf8_length_append utf8_length_Nil utf8_char_def)
qed

lemma spec_encode_value_len:
  "utf8_length (spec_encode_value v) + escape_overhead_value v = length (encode_value v)"
  by (cases v) (simp_all add: spec_encode_string_len utf8_length_ascii str_int_ascii)

lemma spec_encode_item_len:
  "utf8_length (spec_encode_item kv) + escape_overhead_str (fst kv) + escape_overhead_value (snd kv) + 1 =
   item_len kv"
  using spec_encode_string_len [of "fst kv"] spec_encode_value_len [of "snd kv"]
  by (simp add: spec_encode_item_def item_len_def encode_item_def utf8_length_append utf8_length_Cons utf8_length_Nil
      utf8_char_def)

lemma spec_items_len:
  "sum_list (map utf8_length (map spec_encode_item d)) + escape_overhead d + length d =
   sum_list (map item_len d)"
proof (induction d)
  case Nil
  then show ?case by (simp add: escape_overhead_def)
next
  case (Cons kv d)
  then show ?case
    using spec_encode_item_len [of kv] by (simp add: escape_overhead_def)
qed

lemma calculate_data_size_vs_compact:
  "calculate_data_size d = spec_compact_size d + int (2 * length d - 1) + int (escape_overhead d)"
proof -
  have "utf8_length (spec_compact_encoding d) =
        2 + sum_list (map utf8_length (map spec_encode_item d)) + (length d - 1)"
    by (simp add: spec_compact_encoding_def utf8_length_append utf8_length_Cons utf8_length_Nil utf8_length_join utf8_char_def)
  moreover have "length (json_dumps d) = 2 + sum_list (map item_len d) + 2 * (length d - 1)"
    by (rule length_json_dumps)
  ultimately have "length (json_dumps d) =
      utf8_length (spec_compact_encoding d) + (2 * length d - 1) + escape_overhead d"
    using spec_items_len [of d] by (cases d) (simp_all)
  then show ?thesis
    by (simp add: calculate_data_size_length spec_compact_size_def utf8_length_def)
qed

lemma degree_sign_costs_six:
  "calculate_data_size [(k, StrV (s @ [degree_sign]))] = calculate_data_size [(k, StrV s)] + 6"
  by (simp add: calculate_data_size_length json_dumps_def encode_item_def encode_basestring_ascii_def
      escape_char_def degree_sign_def)

subsection \<open>The timestamp\<close>

lemma randint_range:
  assumes "a \<le> b"
  shows "a \<le> randint a b r \<and> randint a b r \<le> b"
proof -
  have "0 < nat (b - a + 1)" using assms by simp
  then have "r mod nat (b - a + 1) < nat (b - a + 1)" by (rule mod_less_divisor)
  then have "int (r mod nat (b - a + 1)) < b - a + 1" by linarith
  then show ?thesis by (simp add: randint_def)
qed

lemma random_timestamp_within_31_days:
  "random_timestamp now r * 1000000 \<le> now \<and>
   now - 31 * 86400 * 1000000 < random_timestamp now r * 1000000"
proof -
  define delta where "delta = timedelta_seconds
            (randint 0 30 (days_draw r)) (randint 0 23 (hours_draw r))
            (randint 0 59 (minutes_draw r)) (randint 0 59 (seconds_draw r))"
  have "0 \<le> delta" "delta \<le> 2678399"
    using randint_range [of 0 30 "days_draw r"] randint_range [of 0 23 "hours_draw r"]
      randint_range [of 0 59 "minutes_draw r"] randint_range [of 0 59 "seconds_draw r"]
    by (simp_all add: delta_def timedelta_seconds_def)
  moreover have ts: "random_timestamp now r = (now - delta * 1000000) div 1000000"
    by (simp add: random_timestamp_def delta_def Let_def)
  moreover have "(now - delta * 1000000) div 1000000 * 1000000 \<le> now - delta * 1000000"
    by (simp add: div_mult_self3) 
  moreover have "now - delta * 1000000 < (now - delta * 1000000) div 1000000 * 1000000 + 1000000"
    using pos_mod_bound [of 1000000 "now - delta * 1000000"]
      div_mult_mod_eq [of "now - delta * 1000000" 1000000] by linarith
  ultimately show ?thesis by simp
qed

lemma example_timestamp:
  "random_timestamp now example_time_draws = (now - 2678399000000) div 1000000"
  by (simp add: random_timestamp_def example_time_draws_def randint_def timedelta_seconds_def)

subsection \<open>The concrete run\<close>

lemmas eval_simps = calculate_data_size_length json_dumps_def encode_item_def
  encode_basestring_ascii_def escape_char_def str_int_def digits.simps digit_char_def hex_char_def
  random_choice_def shrink_field_def slice_to_def

lemma sample_example: "sample_fields example_draws = example_fields"
  by (simp add: sample_fields_def example_draws_def example_fields_def randint_def str_int_def
      digits.simps digit_char_def activity_levels_def str_tenths_def degree_sign_def)

lemma example_fields_size: "calculate_data_size example_fields = 257"
  by (simp add: example_fields_def eval_simps)

lemma example_min_size: "min_achievable_size example_fields = 185"
  by (simp add: example_fields_def min_achievable_size_def minimal_fields_def minimal_value_def
      eval_simps)

lemma example_steps: "map_of example_fields ''steps'' = Some (IntV 1000)"
  by (simp add: example_fields_def)

lemma example_choice_4: "random_choice (map fst example_fields) 4 = Inr ''steps''"
  by (simp add: example_fields_def random_choice_def)

lemma example_run: "shrink_loop [4, 0, 7] example_fields 254 = Returned example_shrunk_fields"
  by (simp add: example_fields_def example_shrunk_fields_def eval_simps)

lemma example_patient_id_length: "int (length (utf8_encode (generate_patient_id 1))) = 6"
  by (simp add: generate_patient_id_1 utf8_encode_def utf8_char_def)

lemma example_generate_data:
  "generate_data example_draws [4, 0, 7] 254 = Returned example_shrunk_fields"
  by (simp only: generate_data_def sample_example example_run)

lemma example_generate_data_994:
  "generate_data example_draws [4, 0, 7] 994 = Returned example_fields"
  by (simp add: generate_data_def sample_example shrink_loop_satisfied example_fields_size
      del: shrink_loop.simps)

lemma example_device_id: "generate_device_id 2345 = ''D12345''"
  by (simp add: generate_device_id_def randint_def str_int_def digits.simps digit_char_def)

lemma example_generated:
  "generate_record example_source now 1 260 = Returned (example_record now example_shrunk_fields)"
  by (simp add: generate_record_def example_source_def example_patient_id_length
      example_generate_data)
    (simp add: example_record_def generate_patient_id_1 example_device_id locations_def
      example_timestamp)

lemma example_generated_1000:
  "generate_record example_source now 1 1000 = Returned (example_record now example_fields)"
  by (simp add: generate_record_def example_source_def example_patient_id_length
      example_generate_data_994)
    (simp add: example_record_def generate_patient_id_1 example_device_id locations_def
      example_timestamp)

lemma counter_selection_never_returns:
  assumes "map_of d key = Some (IntV v)" "random_choice (map fst d) r = Inr key"
    "t < calculate_data_size d - int (length (str_int v)) + 1"
  shows "shrink_loop (replicate n r) d t = Unfinished"
proof -
  let ?d' = "AList.update key (IntV (v - int n)) d"
  have "shrink_loop (replicate n r @ []) d t = shrink_loop [] ?d' t"
    by (rule shrink_loop_counter_run [OF assms])
  moreover have "t < calculate_data_size ?d'"
    using calculate_data_size_update [OF assms(1), of "IntV (v - int n)"] assms(3)
      length_str_int_pos [of "v - int n"] by simp
  ultimately show ?thesis by simp
qed

lemma example_negative_run:
  "shrink_loop (replicate 1001 4 @ [0, 0, 0]) example_fields 252 = Returned example_negative_fields"
proof -
  have "shrink_loop (replicate 1001 4 @ [0, 0, 0]) example_fields 252 =
        shrink_loop [0, 0, 0] (AList.update ''steps'' (IntV (1000 - int 1001)) example_fields) 252"
    by (rule shrink_loop_counter_run [OF example_steps example_choice_4])
      (simp add: example_fields_size str_int_def digits.simps digit_char_def)
  also have "\<dots> = Returned example_negative_fields"
    by (simp add: example_fields_def example_negative_fields_def eval_simps)
  finally show ?thesis .
qed

subsection \<open>The clock\<close>

lemma div_sub_seconds: "(a - k * 1000000) div 1000000 = a div 1000000 - (k::int)"
  using div_mult_self1 [of 1000000 a "- k"] by simp

lemma random_timestamp_shift:
  "random_timestamp now r = random_timestamp now' r + (now div 1000000 - now' div 1000000)"
  by (simp add: random_timestamp_def Let_def div_sub_seconds)

lemma random_timestamp_st_shift:
  "random_timestamp_st now g =
     (fst (random_timestamp_st now' g) + (now div 1000000 - now' div 1000000),
      snd (random_timestamp_st now' g))"
  using random_timestamp_shift [of now _ now']
  by (simp add: random_timestamp_st_def split: prod.splits)

lemma generate_record_st_clock:
  "generate_record_st fuel g now i T =
     map_outcome
       (\<lambda>rg. ((fst rg)\<lparr>timestamp := timestamp (fst rg) + (now div 1000000 - now' div 1000000)\<rparr>,
              snd rg))
       (generate_record_st fuel g now' i T)"
  unfolding generate_record_st_def
  by (subst random_timestamp_st_shift [of now _ now'])
    (simp split: prod.splits outcome.splits)

lemma generate_record_st_equal_iff:
  "generate_record_st fuel g now i T = generate_record_st fuel g now' i T \<longleftrightarrow>
     now div 1000000 = now' div 1000000 \<or> \<not> returned (generate_record_st fuel g now i T)"
proof (cases "generate_record_st fuel g now' i T")
  case (Returned rg)
  then show ?thesis
    using generate_record_st_clock [of fuel g now i T now']
    by (cases rg) (auto intro: telemetry_record.equality dest: arg_cong [where f = timestamp])
next
  case (Raised e)
  then show ?thesis using generate_record_st_clock [of fuel g now i T now'] by simp
next
  case Unfinished
  then show ?thesis using generate_record_st_clock [of fuel g now i T now'] by simp
qed

subsection \<open>The threaded run and its draws\<close>

lemma generate_device_id_st_at:
  "generate_device_id_st (out, p) = (generate_device_id (out p), (out, p + 1))"
  by (simp add: generate_device_id_st_def draw_def)

lemma random_timestamp_st_at:
  "random_timestamp_st now (out, p) = (random_timestamp now (time_draws_at out p), (out, p + 4))"
  by (simp add: random_timestamp_st_def draw_def time_draws_at_def eval_nat_numeral)

lemma sample_fields_st_at:
  "sample_fields_st (out, p) = (sample_fields (field_draws_at out p), (out, p + 10))"
  by (simp add: sample_fields_st_def draw_def field_draws_at_def eval_nat_numeral)

lemma shrink_loop_st_at:
  "shrink_loop_st n (out, p) d t =
     map_outcome (\<lambda>d'. (d', (out, p + iterations (loop_draws_at out p n) d t)))
       (shrink_loop (loop_draws_at out p n) d t)"
proof (induction n arbitrary: p d)
  case 0
  then show ?case by (simp add: loop_draws_at_def)
next
  case (Suc n)
  have upt: "loop_draws_at out p (Suc n) = out p # loop_draws_at out (Suc p) n"
    by (simp add: loop_draws_at_def upt_conv_Cons del: upt_Suc)
  show ?case
    unfolding upt
    by (simp add: draw_def Suc.IH split: sum.splits)
qed

lemma generate_record_st_at:
  "generate_record_st n (out, p) now i T =
     map_outcome
       (\<lambda>r. (r, (out, p + 16 +
          loop_steps_at out p n (T - int (length (utf8_encode (generate_patient_id i)))))))
       (generate_record
          (source_at out p n (T - int (length (utf8_encode (generate_patient_id i))))) now i T)"
proof -
  let ?t = "T - int (length (utf8_encode (generate_patient_id i)))"
  have p: "p + 1 + 4 = p + 5" "p + 5 + 10 = p + 15" by simp_all
  show ?thesis
    unfolding generate_record_st_def generate_record_def generate_data_st_def generate_data_def
      generate_device_id_st_at random_timestamp_st_at sample_fields_st_at shrink_loop_st_at
      prod.case p
    by (cases "shrink_loop (loop_draws_at out (p + 15) n)
                 (sample_fields (field_draws_at out (p + 5))) ?t")
      (simp_all add: source_at_def loop_steps_at_def draw_def del: shrink_loop.simps iterations.simps)
qed

lemma example_iterations: "iterations [4, 0, 7] example_fields 254 = 3"
  by (simp add: example_fields_def eval_simps)

lemma example_time_draws_at: "time_draws_at (example_generator 42) (0 + 1) = example_time_draws"
  by (simp add: time_draws_at_def example_generator_def example_time_draws_def)

lemma example_field_draws_at: "field_draws_at (example_generator 42) (0 + 5) = example_draws"
  by (simp add: field_draws_at_def example_generator_def example_draws_def)

lemma example_loop_draws_at: "loop_draws_at (example_generator 42) (0 + 15) 3 = [4, 0, 7]"
  by (simp add: loop_draws_at_def example_generator_def upt_conv_Cons)

lemma example_loop_steps_at: "loop_steps_at (example_generator 42) 0 3 254 = 3"
  by (simp only: loop_steps_at_def example_field_draws_at example_loop_draws_at sample_example
      example_iterations)

lemma example_source_at: "source_at (example_generator 42) 0 3 254 = example_source"
  by (simp only: source_at_def example_time_draws_at example_field_draws_at
      example_loop_draws_at example_loop_steps_at example_source_def)
    (simp add: example_generator_def)

lemma example_seeded_run:
  "generate_record_st 3 (random_seed example_generator 42) now 1 260 =
     Returned (example_record now example_shrunk_fields, (example_generator 42, 19))"
  by (simp only: random_seed_def generate_record_st_at example_patient_id_length)
    (simp add: example_source_at example_loop_steps_at example_generated)

section \<open>The stated properties\<close>

text \<open>
  C5. The solver is the identity on an input that already satisfies the target:
  when the estimated size of the field map is at most \<open>target_size\<close>, the loop
  body is never entered and the field map is returned as it is; for
  \<open>generate_data\<close> this is the freshly sampled field map.
\<close>

theorem solver_identity_when_satisfied:
  assumes "calculate_data_size d \<le> target_size"
  shows "shrink_loop rs d target_size = Returned d \<and>
         (sample_fields r = d \<longrightarrow> generate_data r rs target_size = Returned d)"
  using assms by (auto simp: generate_data_def shrink_loop_satisfied simp del: shrink_loop.simps)

theorem solver_identity_when_satisfied_witness:
  "calculate_data_size example_fields \<le> 994 \<and>
   shrink_loop [8, 3, 5] example_fields 994 = Returned example_fields \<and>
   generate_data example_draws [8, 3, 5] 994 = Returned example_fields"
proof -
  have h: "calculate_data_size example_fields \<le> 994" by (simp add: example_fields_size)
  show ?thesis
    using h solver_identity_when_satisfied [OF h, of "[8, 3, 5]" example_draws] sample_example
    by (simp del: shrink_loop.simps)
qed

text \<open>
  C10. The solver preserves the keys of the payload and their order: a returned
  field map has the key list of the input, and a field map returned by
  \<open>generate_data\<close> has exactly the nine field names, in the order of the source.
\<close>

theorem solver_preserves_keys:
  "(shrink_loop rs d target_size = Returned d' \<longrightarrow> map fst d' = map fst d) \<and>
   (generate_data r rs target_size = Returned d' \<longrightarrow> map fst d' = field_names)"
proof -
  have "map fst (sample_fields r) = field_names"
    by (simp add: sample_fields_def field_names_def Let_def)
  then show ?thesis
    using shrink_loop_keys [of rs d target_size d']
      shrink_loop_keys [of rs "sample_fields r" target_size d']
    by (auto simp: generate_data_def simp del: shrink_loop.simps)
qed

theorem solver_preserves_keys_witness:
  "shrink_loop [4, 0, 7] example_fields 254 = Returned example_shrunk_fields \<and>
   generate_data example_draws [4, 0, 7] 254 = Returned example_shrunk_fields \<and>
   map fst example_shrunk_fields = map fst example_fields \<and>
   map fst example_shrunk_fields = field_names"
proof -
  note keys = solver_preserves_keys
    [of "[4, 0, 7]" example_fields 254 example_shrunk_fields example_draws]
  from keys example_run have "map fst example_shrunk_fields = map fst example_fields"
    by blast
  moreover from keys example_generate_data have "map fst example_shrunk_fields = field_names"
    by blast
  ultimately show ?thesis using example_run example_generate_data by blast
qed

text \<open>
  C3. When \<open>generate_record\<close> returns a record for the overall target \<open>T\<close>, the
  estimated size of its payload is at most \<open>T\<close> minus the UTF-8 length of its
  patient id, and the payload is what \<open>generate_data\<close> returns for exactly that
  target.
\<close>

theorem generate_record_payload_within_budget:
  assumes "generate_record g now i T = Returned rec"
  shows "calculate_data_size (data rec) \<le> T - int (length (utf8_encode (patient_id rec))) \<and>
         patient_id rec = generate_patient_id i \<and>
         generate_data (field_draws g) (loop_draws g)
           (T - int (length (utf8_encode (generate_patient_id i)))) = Returned (data rec)"
proof -
  let ?t = "T - int (length (utf8_encode (generate_patient_id i)))"
  from assms obtain d where d: "generate_data (field_draws g) (loop_draws g) ?t = Returned d"
    and rec: "data rec = d" "patient_id rec = generate_patient_id i"
    by (auto simp: generate_record_def split: outcome.splits)
  from d have "calculate_data_size d \<le> ?t"
    unfolding generate_data_def by (rule shrink_loop_size)
  with d rec show ?thesis by simp
qed

theorem generate_record_payload_within_budget_witness:
  "generate_record example_source 1762214400000000 1 260 =
     Returned (example_record 1762214400000000 example_shrunk_fields) \<and>
   calculate_data_size example_shrunk_fields \<le> 260 - int (length (utf8_encode ''P00001'')) \<and>
   generate_data example_draws [4, 0, 7] (260 - int (length (utf8_encode ''P00001''))) =
     Returned example_shrunk_fields"
  using generate_record_payload_within_budget [OF example_generated [of 1762214400000000]]
    example_generated [of 1762214400000000]
  by (simp add: example_record_def example_source_def generate_patient_id_1 del: shrink_loop.simps)

text \<open>
  C7. The patient id is a function of the record index alone, distinct indices
  have distinct patient ids, index 1 has the patient id \<open>P00001\<close>, and for an
  index that is not negative the patient id is the letter \<open>P\<close> followed by the
  decimal text of the index, filled with zeros on the left to five digits (six
  characters in all for an index below 100000).
\<close>

theorem generate_patient_id_injective:
  "(i \<noteq> j \<longrightarrow> generate_patient_id i \<noteq> generate_patient_id j) \<and>
   generate_patient_id 1 = ''P00001'' \<and>
   (0 \<le> i \<longrightarrow> generate_patient_id i = CHR ''P'' # zero_fill 5 (str_int i)) \<and>
   (0 \<le> i \<and> i < 100000 \<longrightarrow> length (generate_patient_id i) = 6)"
  using format_05d_inj [of i j] length_generate_patient_id [of i]
  by (auto simp: generate_patient_id_1) (simp_all add: generate_patient_id_def format_05d_def str_int_def)

theorem generate_patient_id_injective_witness:
  "(1::int) \<noteq> 2 \<and> generate_patient_id 1 \<noteq> generate_patient_id 2 \<and>
   (0::int) \<le> 2 \<and> (2::int) < 100000 \<and>
   generate_patient_id 2 = CHR ''P'' # zero_fill 5 (str_int 2) \<and>
   length (generate_patient_id 2) = 6"
proof -
  have "(1::int) \<noteq> 2" "(0::int) \<le> 2" "(2::int) < 100000" by simp_all
  then show ?thesis
    using generate_patient_id_injective [of 1 2] generate_patient_id_injective [of 2 1]
    by blast
qed

text \<open>
  C1, as stated: below the minimum achievable size, and with \<open>target_size = 1\<close>
  in particular, the solver raises \<open>SizeConstraintUnsatisfiable\<close> before looping.
  The code has no such check: with the target 1 the sampled payload of 257
  bytes enters the loop, and after three iterations the loop is still running;
  nothing has been raised.
\<close>

theorem solver_target_1_no_error:
  "generate_data example_draws [0, 1, 2] 1 = Unfinished \<and>
   generate_data example_draws [0, 1, 2] 1 \<noteq> Raised SizeConstraintUnsatisfiable \<and>
   (1::int) < min_achievable_size (sample_fields example_draws)"
proof -
  have "(1::int) < min_achievable_size example_fields"
    by (simp add: example_min_size)
  moreover have "example_fields \<noteq> []"
    by (simp add: example_fields_def)
  ultimately have "shrink_loop [0, 1, 2] example_fields 1 = Unfinished"
    by (rule shrink_loop_below_minimum [rotated])
  then show ?thesis
    by (simp add: generate_data_def sample_example example_min_size del: shrink_loop.simps)
qed

text \<open>
  C1, amended: for every non-empty field map and every target below the minimum
  achievable size (target 1 included, the minimum being at least 2), the solver
  raises no error and returns no field map: whatever random draws it is given,
  and however many, the loop is still running when they are used up.
\<close>

theorem solver_loops_below_minimum:
  assumes "d \<noteq> []" and "target_size < min_achievable_size d"
  shows "shrink_loop rs d target_size = Unfinished \<and>
         (sample_fields r = d \<longrightarrow> generate_data r rs target_size = Unfinished) \<and>
         2 \<le> min_achievable_size d"
  using shrink_loop_below_minimum [OF assms, of rs] min_achievable_size_ge_2 [of d]
  by (auto simp: generate_data_def simp del: shrink_loop.simps)

theorem solver_loops_below_minimum_witness:
  "example_fields \<noteq> [] \<and> (100::int) < min_achievable_size example_fields \<and>
   shrink_loop [4, 4, 1, 8, 3, 7] example_fields 100 = Unfinished \<and>
   generate_data example_draws [4, 4, 1, 8, 3, 7] 100 = Unfinished"
proof -
  have h1: "example_fields \<noteq> []" by (simp add: example_fields_def)
  have h2: "(100::int) < min_achievable_size example_fields" by (simp add: example_min_size)
  show ?thesis
    using h1 h2 solver_loops_below_minimum [OF h1 h2, of "[4, 4, 1, 8, 3, 7]" example_draws]
      sample_example
    by (simp del: shrink_loop.simps)
qed

text \<open>
  C2, as stated: for a target at or above the minimum achievable size the loop
  ends within as many steps as the gap between the initial estimate and the
  target. The sampled payload has the estimate 257 and the minimum 185; with
  the target 250 the gap is 7, and the loop that draws the counter \<open>steps\<close>
  eight times is still running.
\<close>

theorem solver_gap_bound_fails:
  "min_achievable_size (sample_fields example_draws) \<le> 250 \<and>
   calculate_data_size (sample_fields example_draws) - 250 = 7 \<and>
   generate_data example_draws [4, 4, 4, 4, 4, 4, 4, 4] 250 = Unfinished"
proof -
  have "[4, 4, 4, 4, 4, 4, 4, 4] = replicate 8 (4::nat)"
    by (simp add: eval_nat_numeral)
  moreover have "shrink_loop (replicate 8 4) example_fields 250 = Unfinished"
    by (rule counter_selection_never_returns [OF example_steps example_choice_4])
      (simp add: example_fields_size str_int_def digits.simps digit_char_def)
  ultimately show ?thesis
    by (simp add: generate_data_def sample_example example_min_size example_fields_size
        del: shrink_loop.simps)
qed

text \<open>
  C2, amended: the loop returns within as many steps as the gap between the
  initial estimate and the target provided that every selection it makes picks
  a field holding a non-empty string (each such step removes at least one byte).
  Fields that cannot shrink are not excluded from selection and a counter has
  no floor, so no bound holds for other runs.
\<close>

theorem solver_returns_within_gap:
  assumes "selects_shrinkable rs d target_size"
    and "calculate_data_size d - target_size \<le> int (length rs)"
  shows "\<exists>d'. shrink_loop rs d target_size = Returned d' \<and> calculate_data_size d' \<le> target_size"
  using assms by (rule shrink_loop_returns_aux)

theorem solver_returns_within_gap_witness:
  "selects_shrinkable [0, 7] example_fields 255 \<and>
   calculate_data_size example_fields - 255 \<le> int (length [0::nat, 7]) \<and>
   (\<exists>d'. shrink_loop [0, 7] example_fields 255 = Returned d' \<and> calculate_data_size d' \<le> 255)"
proof -
  have h1: "selects_shrinkable [0, 7] example_fields 255"
    by (simp add: example_fields_def eval_simps)
  have h2: "calculate_data_size example_fields - 255 \<le> int (length [0::nat, 7])"
    by (simp add: example_fields_size)
  from solver_returns_within_gap [OF h1 h2] h1 h2 show ?thesis by blast
qed

text \<open>
  C4, as stated: no value of a returned field map is negative. The code
  decreases a counter without a floor: with the target 252, 1001 selections of
  \<open>steps\<close> followed by three of \<open>heart_rate\<close> return a payload whose \<open>steps\<close>
  is \<open>-1\<close>.
\<close>

theorem solver_returns_negative_counter:
  "generate_data example_draws (replicate 1001 4 @ [0, 0, 0]) 252 =
     Returned example_negative_fields \<and>
   map_of example_negative_fields ''steps'' = Some (IntV (- 1))"
  by (simp only: generate_data_def sample_example example_negative_run)
    (simp add: example_negative_fields_def)

text \<open>
  C4, amended: whenever the solver returns, every integer field of the returned
  field map equals its initial value minus the number of iterations that
  selected it. The field is decreased by one per selection and there is no
  floor at 0: the returned value is negative exactly when the field was
  selected more often than its initial value.
\<close>

theorem solver_counter_exact:
  assumes "shrink_loop rs d target_size = Returned d'" and "map_of d k = Some (IntV n)"
  shows "map_of d' k = Some (IntV (n - int (selections rs d target_size k))) \<and>
         (n - int (selections rs d target_size k) < 0 \<longleftrightarrow>
            n < int (selections rs d target_size k))"
  using shrink_loop_counter_exact [OF assms] by simp

theorem solver_counter_exact_witness:
  "shrink_loop (replicate 1001 4 @ [0, 0, 0]) example_fields 252 = Returned example_negative_fields \<and>
   map_of example_fields ''steps'' = Some (IntV 1000) \<and>
   map_of example_negative_fields ''steps'' = Some (IntV (- 1)) \<and>
   selections (replicate 1001 4 @ [0, 0, 0]) example_fields 252 ''steps'' = 1001 \<and>
   (1000::int) < int (selections (replicate 1001 4 @ [0, 0, 0]) example_fields 252 ''steps'')"
proof -
  let ?s = "selections (replicate 1001 4 @ [0, 0, 0]) example_fields 252 ''steps''"
  have neg: "map_of example_negative_fields ''steps'' = Some (IntV (- 1))"
    by (simp add: example_negative_fields_def)
  from solver_counter_exact [OF example_negative_run example_steps]
  have "map_of example_negative_fields ''steps'' = Some (IntV (1000 - int ?s))" by blast
  with neg have "1000 - int ?s = - 1" by (simp only: option.inject field_value.inject)
  then have "?s = 1001" by linarith
  with example_negative_run example_steps neg show ?thesis by (simp only:) simp
qed

text \<open>
  C6. The source documents \<open>random_timestamp\<close> as producing a timestamp within
  the last 30 days, but \<open>days\<close> is drawn from 0..30 and hours, minutes and
  seconds are added to it. With the draws 30 days, 23 hours, 59 minutes and 59
  seconds the timestamp is earlier than 30 days before the clock reading,
  whatever the clock reading is.
\<close>

theorem random_timestamp_older_than_30_days:
  "random_timestamp now example_time_draws * 1000000 < now - 30 * 86400 * 1000000 \<and>
   random_timestamp 1762214400000000 example_time_draws = 1759536001"
proof -
  have "(now - 2678399000000) div 1000000 * 1000000 \<le> now - 2678399000000"
    by (simp add: div_mult_self3)
  then show ?thesis by (simp add: example_timestamp)
qed

text \<open>
  C8, as stated: two calls with the same seed, index and target produce the
  same record, timestamp included. The timestamp is computed from
  \<open>datetime.now()\<close>: with the generator seeded with 42, the index 1 and the
  target 260, two calls whose clock readings are one second apart return
  different records.
\<close>

theorem generate_record_depends_on_clock:
  "generate_record_st 3 (random_seed example_generator 42) 1762214400000000 1 260 \<noteq>
   generate_record_st 3 (random_seed example_generator 42) 1762214401000000 1 260"
  by (simp add: example_seeded_run example_record_def)

text \<open>
  C8, amended: record generation is deterministic given the random seed and the
  clock reading. Two calls with the same seed, index and target take the same
  numbers from the generator and leave it in the same state, either both
  return or both do not, and the records they return are equal in patient id,
  device id, payload and location; their timestamps differ by the difference
  of the two clock readings in whole seconds. Hence the two outcomes are equal
  exactly when the two calls read the clock within the same second, or when
  neither returns.
\<close>

theorem generate_record_deterministic_up_to_clock:
  "generate_record_st fuel (random_seed gen s) now i T =
     map_outcome
       (\<lambda>rg. ((fst rg)\<lparr>timestamp := timestamp (fst rg) + (now div 1000000 - now' div 1000000)\<rparr>,
              snd rg))
       (generate_record_st fuel (random_seed gen s) now' i T) \<and>
   (generate_record_st fuel (random_seed gen s) now i T =
      generate_record_st fuel (random_seed gen s) now' i T \<longleftrightarrow>
    now div 1000000 = now' div 1000000 \<or>
    \<not> returned (generate_record_st fuel (random_seed gen s) now i T))"
  using generate_record_st_clock [of fuel "random_seed gen s" now i T now']
    generate_record_st_equal_iff [of fuel "random_seed gen s" now i T now']
  by blast

theorem generate_record_deterministic_up_to_clock_witness:
  "returned (generate_record_st 3 (random_seed example_generator 42) 1762214400000000 1 260) \<and>
   (1762214400000000::int) div 1000000 = 1762214400999999 div 1000000 \<and>
   generate_record_st 3 (random_seed example_generator 42) 1762214400000000 1 260 =
   generate_record_st 3 (random_seed example_generator 42) 1762214400999999 1 260 \<and>
   (1762214400000000::int) div 1000000 \<noteq> 1762214401000000 div 1000000 \<and>
   generate_record_st 3 (random_seed example_generator 42) 1762214400000000 1 260 \<noteq>
   generate_record_st 3 (random_seed example_generator 42) 1762214401000000 1 260"
proof -
  let ?run = "generate_record_st 3 (random_seed example_generator 42)"
  have r: "returned (?run 1762214400000000 1 260)"
    by (simp add: example_seeded_run)
  have same: "(1762214400000000::int) div 1000000 = 1762214400999999 div 1000000" by simp
  have other: "(1762214400000000::int) div 1000000 \<noteq> 1762214401000000 div 1000000" by simp
  from generate_record_deterministic_up_to_clock
         [of 3 example_generator 42 1762214400000000 1 260 1762214400999999] same
  have eq: "?run 1762214400000000 1 260 = ?run 1762214400999999 1 260" by blast
  from generate_record_deterministic_up_to_clock
         [of 3 example_generator 42 1762214400000000 1 260 1762214401000000] other r
  have neq: "?run 1762214400000000 1 260 \<noteq> ?run 1762214401000000 1 260" by blast
  from r same eq other neq show ?thesis by blast
qed

text \<open>
  C9, as stated: the estimate is the byte length of the compact encoding (no
  whitespace, UTF-8, the degree sign counting two bytes). For the one-field map
  whose \<open>temperature\<close> is 36.6 degrees C the code measures 30 bytes, the compact
  encoding has 25.
\<close>

theorem estimator_is_not_compact_utf8:
  "calculate_data_size [(''temperature'', StrV (''36.6'' @ [degree_sign, CHR ''C'']))] = 30 \<and>
   spec_compact_size [(''temperature'', StrV (''36.6'' @ [degree_sign, CHR ''C'']))] = 25 \<and>
   calculate_data_size [(''temperature'', StrV (''36.6'' @ [degree_sign, CHR ''C'']))] \<noteq>
   spec_compact_size [(''temperature'', StrV (''36.6'' @ [degree_sign, CHR ''C'']))]"
  by (simp add: eval_simps degree_sign_def spec_compact_size_def spec_compact_encoding_def
      spec_encode_item_def spec_encode_string_def spec_escape_char_def utf8_encode_def
      utf8_char_def)

text \<open>
  C9, amended: the estimate is the byte length of the default \<open>json.dumps\<close> text:
  keys in insertion order, a space after every \<open>:\<close> and every \<open>,\<close>, and every
  character outside printable ASCII escaped, so that the text is pure ASCII and
  its UTF-8 length is its number of characters. Against the compact UTF-8
  encoding it counts one extra byte per separator and the escape overhead (the
  degree sign costs the six bytes of \<open>\\u00b0\<close>). The loop measures its progress
  with this same function.
\<close>

theorem estimator_is_default_json_length:
  "calculate_data_size d = int (length (json_dumps d)) \<and>
   calculate_data_size d =
     spec_compact_size d + int (2 * length d - 1) + int (escape_overhead d) \<and>
   calculate_data_size [(k, StrV (s @ [degree_sign]))] = calculate_data_size [(k, StrV s)] + 6 \<and>
   shrink_loop [] d target_size =
     (if calculate_data_size d > target_size then Unfinished else Returned d)"
  using calculate_data_size_length [of d] calculate_data_size_vs_compact [of d]
    degree_sign_costs_six [of k s]
  by simp

end
